theory Spec2Isabelle
  imports Main
begin

section \<open>Python values\<close>

text \<open>
  The orchestration layer of the repository (\<^verbatim>\<open>qtest_manager.py\<close>, \<^verbatim>\<open>qtest_api.py\<close>
  and the step-log keywords of \<^verbatim>\<open>qtest_robot_library.py\<close>) works on the JSON
  values that the qTest platform sends and receives. They are modelled by one datatype;
  a dictionary is an association list in insertion order with string keys, as a Python
  \<^verbatim>\<open>dict\<close> built from JSON is. A character of a string is a code point below
  256, so the strings of the model are the Latin-1 texts. Floating-point numbers are
  not part of the model.
\<close>

datatype pyval =
    PNone
  | PBool bool
  | PInt int
  | PStr string
  | PList "pyval list"
  | PDict "(string \<times> pyval) list"

type_synonym dict = "(string \<times> pyval) list"

text \<open>
  Every exception the modelled code can raise is a value. \<open>RequestException\<close> is the
  failure of the HTTP transport (\<^verbatim>\<open>requests.exceptions.RequestException\<close>, re-raised
  by \<^verbatim>\<open>_make_request\<close>). \<open>InvalidStatus status names\<close> is the \<^verbatim>\<open>ValueError\<close> of
  \<^verbatim>\<open>update_test_result\<close>, whose message is
  \<^verbatim>\<open>f"Invalid status: {status}. Available statuses: {list(statuses.keys())}"\<close>: it carries
  the two values the message is formatted from. \<open>MissingArgument p\<close> is the
  \<^verbatim>\<open>TypeError\<close> of a call that does not bind the required parameter \<open>p\<close>.
\<close>

datatype error =
    RequestException
  | InvalidStatus string "string list"
  | ValueError string
  | MissingArgument string
  | KeyError string
  | TypeError
  | AttributeError

subsection \<open>Truthiness, dictionary access, iteration\<close>

fun py_truthy :: "pyval \<Rightarrow> bool" where
  "py_truthy PNone = False"
| "py_truthy (PBool b) = b"
| "py_truthy (PInt i) = (i \<noteq> 0)"
| "py_truthy (PStr s) = (s \<noteq> [])"
| "py_truthy (PList xs) = (xs \<noteq> [])"
| "py_truthy (PDict d) = (d \<noteq> [])"

definition py_or :: "pyval \<Rightarrow> pyval \<Rightarrow> pyval" where
  \<comment> \<open>\<^verbatim>\<open>a or b\<close>\<close>
  "py_or a b = (if py_truthy a then a else b)"

definition dict_get :: "dict \<Rightarrow> string \<Rightarrow> pyval \<Rightarrow> pyval" where
  \<comment> \<open>\<^verbatim>\<open>d.get(k, default)\<close>\<close>
  "dict_get d k dflt = (case map_of d k of None \<Rightarrow> dflt | Some v \<Rightarrow> v)"

definition dict_item :: "dict \<Rightarrow> string \<Rightarrow> error + pyval" where
  \<comment> \<open>\<^verbatim>\<open>d[k]\<close>\<close>
  "dict_item d k = (case map_of d k of None \<Rightarrow> Inl (KeyError k) | Some v \<Rightarrow> Inr v)"

fun dict_set :: "dict \<Rightarrow> string \<Rightarrow> pyval \<Rightarrow> dict" where
  \<comment> \<open>\<^verbatim>\<open>d[k] = v\<close>: an existing key keeps its position, a new key goes last\<close>
  "dict_set [] k v = [(k, v)]"
| "dict_set ((k', v') # d) k v = (if k' = k then (k, v) # d else (k', v') # dict_set d k v)"

fun py_get :: "pyval \<Rightarrow> string \<Rightarrow> pyval \<Rightarrow> error + pyval" where
  \<comment> \<open>\<^verbatim>\<open>x.get(k, default)\<close>: only a dict has the method\<close>
  "py_get (PDict d) k dflt = Inr (dict_get d k dflt)"
| "py_get _ k dflt = Inl AttributeError"

fun py_item :: "pyval \<Rightarrow> string \<Rightarrow> error + pyval" where
  \<comment> \<open>\<^verbatim>\<open>x[k]\<close> with a string key\<close>
  "py_item (PDict d) k = dict_item d k"
| "py_item _ k = Inl TypeError"

fun py_iter :: "pyval \<Rightarrow> error + pyval list" where
  \<comment> \<open>the elements a \<^verbatim>\<open>for\<close> loop visits\<close>
  "py_iter (PList xs) = Inr xs"
| "py_iter (PDict d) = Inr (map (\<lambda>kv. PStr (fst kv)) d)"
| "py_iter (PStr s) = Inr (map (\<lambda>c. PStr [c]) s)"
| "py_iter _ = Inl TypeError"

subsection \<open>Strings\<close>

text \<open>
  \<^verbatim>\<open>str.strip()\<close> and \<^verbatim>\<open>str.lower()\<close> map Latin-1 text to Latin-1 text: the
  white space below 256 is 9-13, 28-32, 133 and 160, and the capital letters are A-Z and
  192-222 without the sign 215, each 32 below its small letter. \<^verbatim>\<open>str.upper()\<close> does
  not stay below 256 (it sends 181 and 255 beyond, and 223 to two letters), so it is not
  defined here: every operation that calls it takes it as the parameter \<open>upper\<close>, and
  what is proved holds whatever that function does.
\<close>

definition is_space :: "char \<Rightarrow> bool" where
  \<comment> \<open>the characters \<^verbatim>\<open>str.strip()\<close> removes\<close>
  "is_space c =
     (let n = (of_char c :: nat)
      in (9 \<le> n \<and> n \<le> 13) \<or> (28 \<le> n \<and> n \<le> 32) \<or> n = 133 \<or> n = 160)"

definition py_strip :: "string \<Rightarrow> string" where
  "py_strip s = rev (dropWhile is_space (rev (dropWhile is_space s)))"

definition lower_char :: "char \<Rightarrow> char" where
  "lower_char c =
     (let n = (of_char c :: nat)
      in if (65 \<le> n \<and> n \<le> 90) \<or> (192 \<le> n \<and> n \<le> 222 \<and> n \<noteq> 215) then char_of (n + 32) else c)"

definition py_lower :: "string \<Rightarrow> string" where
  "py_lower s = map lower_char s"

fun str_upper :: "(string \<Rightarrow> string) \<Rightarrow> pyval \<Rightarrow> error + string" where
  \<comment> \<open>\<^verbatim>\<open>x.upper()\<close>: only a string has the method\<close>
  "str_upper upper (PStr s) = Inr (upper s)"
| "str_upper upper _ = Inl AttributeError"

section \<open>Transport and manager state\<close>

text \<open>
  \<^verbatim>\<open>QTestAPI._make_request(method, endpoint, data, params)\<close> issues one HTTP request and
  returns the parsed JSON body (\<^verbatim>\<open>None\<close> for an empty body) or raises. The platform
  behind it is not part of the repository: it is a parameter \<open>tr\<close> of every operation,
  a function from the request and the platform's state \<open>'w\<close> to the outcome and the
  platform's next state. The endpoints are the f-strings of \<^verbatim>\<open>qtest_api.py\<close>, with the
  interpolated identifier as argument.
\<close>

datatype endpoint =
    Execution_statuses      \<comment> \<open>\<^verbatim>\<open>test-runs/execution-statuses\<close>\<close>
  | Test_logs pyval         \<comment> \<open>\<^verbatim>\<open>test-runs/{test_run_id}/test-logs\<close>\<close>
  | Test_runs               \<comment> \<open>\<^verbatim>\<open>test-runs\<close>\<close>
  | Test_cycles             \<comment> \<open>\<^verbatim>\<open>test-cycles\<close>\<close>
  | Test_cases              \<comment> \<open>\<^verbatim>\<open>test-cases\<close>\<close>
  | Test_steps pyval        \<comment> \<open>\<^verbatim>\<open>test-cases/{test_case_id}/test-steps\<close>\<close>

record request =
  req_method :: string
  req_endpoint :: endpoint
  req_data :: pyval
  req_params :: pyval

type_synonym 'w transport = "request \<Rightarrow> 'w \<Rightarrow> (error + pyval) \<times> 'w"

text \<open>
  The state of one \<^verbatim>\<open>QTestManager\<close>: the platform it talks to, the requests it has
  issued so far (oldest first; kept to state what is and is not sent), and the field
  \<^verbatim>\<open>self._execution_statuses\<close>, \<^verbatim>\<open>None\<close> until the first successful fetch.
\<close>

record 'w manager =
  world :: 'w
  sent :: "request list"
  execution_statuses :: "dict option"

definition make_request :: "'w transport \<Rightarrow> request \<Rightarrow> 'w manager \<Rightarrow> (error + pyval) \<times> 'w manager" where
  "make_request tr r s =
     (case tr r (world s) of
        (res, w') \<Rightarrow> (res, s\<lparr>world := w', sent := sent s @ [r]\<rparr>))"

section \<open>Status registry\<close>

definition statuses_request :: request where
  \<comment> \<open>\<^verbatim>\<open>QTestAPI.get_execution_statuses\<close>\<close>
  "statuses_request =
     \<lparr>req_method = ''GET'', req_endpoint = Execution_statuses, req_data = PNone, req_params = PNone\<rparr>"

text \<open>
  The dictionary comprehension
  \<^verbatim>\<open>{status['name'].upper(): status['id'] for status in statuses}\<close>:
  the key expression is evaluated before the value expression, and a repeated key
  overwrites the earlier value.
\<close>

fun status_entries :: "(string \<Rightarrow> string) \<Rightarrow> pyval list \<Rightarrow> dict \<Rightarrow> error + dict" where
  "status_entries upper [] acc = Inr acc"
| "status_entries upper (status # rest) acc =
     (case py_item status ''name'' of
        Inl e \<Rightarrow> Inl e
      | Inr n \<Rightarrow>
          (case str_upper upper n of
             Inl e \<Rightarrow> Inl e
           | Inr k \<Rightarrow>
               (case py_item status ''id'' of
                  Inl e \<Rightarrow> Inl e
                | Inr i \<Rightarrow> status_entries upper rest (dict_set acc k i))))"

definition status_mapping :: "(string \<Rightarrow> string) \<Rightarrow> pyval \<Rightarrow> error + dict" where
  "status_mapping upper statuses =
     (case py_iter statuses of Inl e \<Rightarrow> Inl e | Inr xs \<Rightarrow> status_entries upper xs [])"

definition get_execution_statuses ::
  "(string \<Rightarrow> string) \<Rightarrow> 'w transport \<Rightarrow> 'w manager \<Rightarrow> (error + dict) \<times> 'w manager" where
  \<comment> \<open>\<^verbatim>\<open>QTestManager.get_execution_statuses\<close>\<close>
  "get_execution_statuses upper tr s =
     (case execution_statuses s of
        Some m \<Rightarrow> (Inr m, s)
      | None \<Rightarrow>
          (case make_request tr statuses_request s of
             (Inl e, s1) \<Rightarrow> (Inl e, s1)
           | (Inr statuses, s1) \<Rightarrow>
               (case status_mapping upper statuses of
                  Inl e \<Rightarrow> (Inl e, s1)
                | Inr m \<Rightarrow> (Inr m, s1\<lparr>execution_statuses := Some m\<rparr>))))"

definition status_pair :: "pyval \<Rightarrow> (string \<times> pyval) option" where
  \<comment> \<open>the name and the id of a status \<^verbatim>\<open>{id, name}\<close> as the platform lists it\<close>
  "status_pair status =
     (case status of
        PDict d \<Rightarrow>
          (case map_of d ''name'' of
             Some (PStr n) \<Rightarrow> (case map_of d ''id'' of Some i \<Rightarrow> Some (n, i) | None \<Rightarrow> None)
           | _ \<Rightarrow> None)
      | _ \<Rightarrow> None)"

section \<open>Conversions between text and numbers\<close>

text \<open>
  \<^verbatim>\<open>str(x)\<close> and \<^verbatim>\<open>int(x)\<close> on the values above. \<^verbatim>\<open>str\<close> of a string is the
  string itself, of anything else its \<^verbatim>\<open>repr\<close>. \<^verbatim>\<open>int\<close> of a string strips
  white space (its own: 9-13, 32, 133 and 160, not 28-31), reads an optional sign and
  decimal digits that single underscores may separate, at most 4300 digits by the
  interpreter's default limit, and raises \<^verbatim>\<open>ValueError\<close> otherwise; \<^verbatim>\<open>int\<close> of
  \<^verbatim>\<open>None\<close>, a list or a dict raises \<^verbatim>\<open>TypeError\<close>. The same limit keeps integers
  of more than 4300 digits out of what the platform's JSON can hold.
\<close>

definition digit_char :: "nat \<Rightarrow> char" where
  "digit_char n = char_of (48 + n)"

fun nat_digits :: "nat \<Rightarrow> string" where
  "nat_digits n = (if n < 10 then [digit_char n] else nat_digits (n div 10) @ [digit_char (n mod 10)])"

declare nat_digits.simps [simp del]

definition int_str :: "int \<Rightarrow> string" where
  "int_str i = (if i < 0 then CHR ''-'' # nat_digits (nat (- i)) else nat_digits (nat i))"

definition hex_char :: "nat \<Rightarrow> char" where
  "hex_char n = (if n < 10 then char_of (48 + n) else char_of (87 + n))"

definition escape_char :: "char \<Rightarrow> char \<Rightarrow> string" where
  \<comment> \<open>one character inside \<^verbatim>\<open>repr\<close> of a string delimited by \<open>q\<close>\<close>
  "escape_char q c =
     (let n = (of_char c :: nat) in
      if n = 92 then [CHR 0x5C, CHR 0x5C]
      else if c = q then [CHR 0x5C, q]
      else if n = 9 then [CHR 0x5C, CHR ''t'']
      else if n = 10 then [CHR 0x5C, CHR ''n'']
      else if n = 13 then [CHR 0x5C, CHR ''r'']
      else if n < 32 \<or> (127 \<le> n \<and> n \<le> 160) \<or> n = 173
           then [CHR 0x5C, CHR ''x'', hex_char (n div 16), hex_char (n mod 16)]
      else [c])"

definition str_repr :: "string \<Rightarrow> string" where
  \<comment> \<open>single quotes, unless the text has a single quote and no double quote\<close>
  "str_repr s =
     (let q = (if CHR 0x27 \<in> set s \<and> CHR 0x22 \<notin> set s then CHR 0x22 else CHR 0x27)
      in q # concat (map (escape_char q) s) @ [q])"

fun join_comma :: "string list \<Rightarrow> string" where
  \<comment> \<open>\<^verbatim>\<open>', '.join(xs)\<close>\<close>
  "join_comma [] = []"
| "join_comma [x] = x"
| "join_comma (x # y # ys) = x @ '', '' @ join_comma (y # ys)"

primrec py_repr :: "pyval \<Rightarrow> string" where
  "py_repr PNone = ''None''"
| "py_repr (PBool b) = (if b then ''True'' else ''False'')"
| "py_repr (PInt i) = int_str i"
| "py_repr (PStr s) = str_repr s"
| "py_repr (PList xs) = ''['' @ join_comma (map py_repr xs) @ '']''"
| "py_repr (PDict d) =
     ''{'' @ join_comma (map (\<lambda>kv. str_repr (fst kv) @ '': '' @ snd kv) (map (map_prod id py_repr) d)) @ ''}''"

definition py_str :: "pyval \<Rightarrow> string" where
  "py_str v = (case v of PStr s \<Rightarrow> s | _ \<Rightarrow> py_repr v)"

definition is_digit :: "char \<Rightarrow> bool" where
  "is_digit c = (let n = (of_char c :: nat) in 48 \<le> n \<and> n \<le> 57)"

fun parse_digits :: "string \<Rightarrow> nat \<Rightarrow> bool \<Rightarrow> nat option" where
  \<comment> \<open>the flag says that the previous character was a digit\<close>
  "parse_digits [] acc after_digit = (if after_digit then Some acc else None)"
| "parse_digits (c # cs) acc after_digit =
     (if is_digit c then parse_digits cs (10 * acc + (of_char c - 48)) True
      else if c = CHR ''_'' \<and> after_digit then parse_digits cs acc False
      else None)"

definition is_int_space :: "char \<Rightarrow> bool" where
  \<comment> \<open>the characters \<^verbatim>\<open>int()\<close> skips around the number\<close>
  "is_int_space c = (let n = (of_char c :: nat) in (9 \<le> n \<and> n \<le> 13) \<or> n = 32 \<or> n = 133 \<or> n = 160)"

definition parse_int :: "string \<Rightarrow> int option" where
  "parse_int s =
     (case rev (dropWhile is_int_space (rev (dropWhile is_int_space s))) of
        [] \<Rightarrow> None
      | c # cs \<Rightarrow>
          if 4300 < length (filter is_digit (c # cs)) then None
          else if c = CHR ''-'' then map_option (\<lambda>n. - int n) (parse_digits cs 0 False)
          else if c = CHR ''+'' then map_option int (parse_digits cs 0 False)
          else map_option int (parse_digits (c # cs) 0 False))"

fun py_int :: "pyval \<Rightarrow> error + int" where
  "py_int (PInt i) = Inr i"
| "py_int (PBool b) = Inr (if b then 1 else 0)"
| "py_int (PStr s) = (case parse_int s of None \<Rightarrow> Inl (ValueError ''invalid literal for int()'') | Some i \<Rightarrow> Inr i)"
| "py_int _ = Inl TypeError"

fun str_strip_lower :: "pyval \<Rightarrow> error + string" where
  \<comment> \<open>\<^verbatim>\<open>name.strip().lower()\<close>: only a string has the methods\<close>
  "str_strip_lower (PStr s) = Inr (py_lower (py_strip s))"
| "str_strip_lower _ = Inl AttributeError"

section \<open>Result reporter\<close>

text \<open>
  \<^verbatim>\<open>QTestManager.update_test_result(test_run_id, test_case_id, status, steplogs,
  test_case_version_id=None, note=None, execution_time=None, defects=None,
  exe_start_date=None, exe_end_date=None)\<close>. The parameter \<^verbatim>\<open>steplogs\<close> has no
  default: a call that does not pass it raises \<^verbatim>\<open>TypeError\<close> before the body runs.
  The model takes it as an option, \<open>None\<close> for a call that leaves it out; the other
  optional parameters are \<open>PNone\<close> when left out.
\<close>

fun defect_links :: "pyval list \<Rightarrow> pyval list" where
  \<comment> \<open>\<^verbatim>\<open>[{'id': defect_id} for defect_id in defects]\<close>\<close>
  "defect_links [] = []"
| "defect_links (defect_id # rest) = PDict [(''id'', defect_id)] # defect_links rest"

definition test_log_data ::
  "pyval \<Rightarrow> pyval \<Rightarrow> string \<Rightarrow> pyval \<Rightarrow> pyval \<Rightarrow> pyval \<Rightarrow> pyval \<Rightarrow> pyval \<Rightarrow> pyval \<Rightarrow> pyval \<Rightarrow> error + dict" where
  \<comment> \<open>lines 188-208 of \<^verbatim>\<open>qtest_manager.py\<close>\<close>
  "test_log_data test_case_id status_id status_upper steplogs test_case_version_id note
       execution_time defects exe_start_date exe_end_date =
     (let d0 = [(''status'', PDict [(''id'', status_id), (''name'', PStr status_upper)]),
                (''test_case_version_id'',
                   if test_case_version_id \<noteq> PNone then test_case_version_id else test_case_id)];
          d1 = (if py_truthy note then dict_set d0 ''note'' note else d0);
          d2 = (if py_truthy execution_time then dict_set d1 ''exe_time'' execution_time else d1)
      in case (if py_truthy defects
               then (case py_iter defects of
                       Inl e \<Rightarrow> Inl e
                     | Inr xs \<Rightarrow> Inr (dict_set d2 ''defects'' (PList (defect_links xs))))
               else Inr d2) of
           Inl e \<Rightarrow> Inl e
         | Inr d3 \<Rightarrow>
             (let d4 = (if py_truthy exe_start_date then dict_set d3 ''exe_start_date'' exe_start_date else d3);
                  d5 = (if py_truthy exe_end_date then dict_set d4 ''exe_end_date'' exe_end_date else d4)
              in case py_item steplogs ''logs'' of
                   Inl e \<Rightarrow> Inl e
                 | Inr logs \<Rightarrow> Inr (dict_set d5 ''test_step_logs'' logs)))"

definition add_test_log_request :: "pyval \<Rightarrow> dict \<Rightarrow> request" where
  \<comment> \<open>\<^verbatim>\<open>QTestAPI.add_test_log\<close>\<close>
  "add_test_log_request test_run_id d =
     \<lparr>req_method = ''POST'', req_endpoint = Test_logs test_run_id, req_data = PDict d, req_params = PNone\<rparr>"

definition update_test_result ::
  "(string \<Rightarrow> string) \<Rightarrow> 'w transport \<Rightarrow> pyval \<Rightarrow> pyval \<Rightarrow> pyval \<Rightarrow> pyval option
     \<Rightarrow> pyval \<Rightarrow> pyval \<Rightarrow> pyval \<Rightarrow> pyval \<Rightarrow> pyval \<Rightarrow> pyval
     \<Rightarrow> 'w manager \<Rightarrow> (error + pyval) \<times> 'w manager" where
  "update_test_result upper tr test_run_id test_case_id status steplogs_arg test_case_version_id note
       execution_time defects exe_start_date exe_end_date s =
     (case steplogs_arg of
        None \<Rightarrow> (Inl (MissingArgument ''steplogs''), s)
      | Some steplogs \<Rightarrow>
          (case get_execution_statuses upper tr s of
             (Inl e, s1) \<Rightarrow> (Inl e, s1)
           | (Inr statuses, s1) \<Rightarrow>
               (case status of
                  PStr st \<Rightarrow>
                    (let status_upper = upper st in
                     case map_of statuses status_upper of
                       None \<Rightarrow> (Inl (InvalidStatus st (map fst statuses)), s1)
                     | Some status_id \<Rightarrow>
                         (case test_log_data test_case_id status_id status_upper steplogs
                                 test_case_version_id note execution_time defects
                                 exe_start_date exe_end_date of
                            Inl e \<Rightarrow> (Inl e, s1)
                          | Inr d \<Rightarrow>
                              (case make_request tr (add_test_log_request test_run_id d) s1 of
                                 (Inl e, s2) \<Rightarrow> (Inl e, s2)
                               | (Inr result, s2) \<Rightarrow>
                                   \<comment> \<open>the log line reads \<^verbatim>\<open>result.get('id')\<close> inside the \<^verbatim>\<open>try\<close>\<close>
                                   (case py_get result ''id'' PNone of
                                      Inl e \<Rightarrow> (Inl e, s2)
                                    | Inr _ \<Rightarrow> (Inr result, s2)))))
                | _ \<Rightarrow> (Inl AttributeError, s1))))"

text \<open>
  One entry of the list \<^verbatim>\<open>bulk_update_test_results\<close> returns: the test log that
  \<^verbatim>\<open>update_test_result\<close> returned, or the substitute dictionary
  \<^verbatim>\<open>{'error': str(e), 'test_case_id': test_result['test_case_id']}\<close>, kept as the
  exception \<open>e\<close> and the case id.
\<close>

datatype entry = TestLog pyval | ErrorRecord error pyval

definition report_item ::
  "(string \<Rightarrow> string) \<Rightarrow> 'w transport \<Rightarrow> pyval \<Rightarrow> dict \<Rightarrow> 'w manager \<Rightarrow> (error + pyval) \<times> 'w manager" where
  \<comment> \<open>the body of the \<^verbatim>\<open>try\<close>, lines 236-243: the call passes no \<^verbatim>\<open>steplogs\<close>\<close>
  "report_item upper tr test_run_id test_result s =
     (case dict_item test_result ''test_case_id'' of
        Inl e \<Rightarrow> (Inl e, s)
      | Inr test_case_id \<Rightarrow>
          (case dict_item test_result ''status'' of
             Inl e \<Rightarrow> (Inl e, s)
           | Inr status \<Rightarrow>
               update_test_result upper tr test_run_id test_case_id status None PNone
                 (dict_get test_result ''note'' PNone)
                 (dict_get test_result ''execution_time'' PNone)
                 (dict_get test_result ''defects'' PNone)
                 PNone PNone s))"

fun bulk_loop ::
  "(string \<Rightarrow> string) \<Rightarrow> 'w transport \<Rightarrow> pyval \<Rightarrow> dict list \<Rightarrow> entry list \<Rightarrow> 'w manager
     \<Rightarrow> (error + entry list) \<times> 'w manager" where
  "bulk_loop upper tr test_run_id [] results s = (Inr results, s)"
| "bulk_loop upper tr test_run_id (test_result # rest) results s =
     (case report_item upper tr test_run_id test_result s of
        (Inr result, s1) \<Rightarrow> bulk_loop upper tr test_run_id rest (results @ [TestLog result]) s1
      | (Inl e, s1) \<Rightarrow>
          \<comment> \<open>the handler reads \<^verbatim>\<open>test_result['test_case_id']\<close> again, outside any \<^verbatim>\<open>try\<close>\<close>
          (case dict_item test_result ''test_case_id'' of
             Inl e' \<Rightarrow> (Inl e', s1)
           | Inr test_case_id \<Rightarrow>
               bulk_loop upper tr test_run_id rest (results @ [ErrorRecord e test_case_id]) s1))"

definition bulk_update_test_results ::
  "(string \<Rightarrow> string) \<Rightarrow> 'w transport \<Rightarrow> pyval \<Rightarrow> dict list \<Rightarrow> 'w manager
     \<Rightarrow> (error + entry list) \<times> 'w manager" where
  "bulk_update_test_results upper tr test_run_id test_results s =
     bulk_loop upper tr test_run_id test_results [] s"

definition item_entry :: "dict \<Rightarrow> error + pyval \<Rightarrow> error + entry" where
  \<comment> \<open>what one pass of the loop appends, from the outcome of the \<^verbatim>\<open>try\<close> body\<close>
  "item_entry test_result outcome =
     (case outcome of
        Inr result \<Rightarrow> Inr (TestLog result)
      | Inl e \<Rightarrow>
          (case dict_item test_result ''test_case_id'' of
             Inl e' \<Rightarrow> Inl e'
           | Inr test_case_id \<Rightarrow> Inr (ErrorRecord e test_case_id)))"

section \<open>Entity resolver\<close>

definition name_matches :: "dict \<Rightarrow> string \<Rightarrow> bool" where
  \<comment> \<open>\<^verbatim>\<open>cy_name == target or (cy_pid and cy_pid == target)\<close>, the same test for test cases\<close>
  "name_matches c target =
     (let c_name = py_lower (py_strip (py_str (dict_get c ''name'' (PStr []))));
          c_pid = py_lower (py_strip (py_str (dict_get c ''pid'' (PStr []))))
      in c_name = target \<or> (c_pid \<noteq> [] \<and> c_pid = target))"

fun find_cycle :: "pyval list \<Rightarrow> string \<Rightarrow> error + pyval" where
  \<comment> \<open>the \<^verbatim>\<open>for cy in cycles\<close> loop of \<^verbatim>\<open>find_test_cycle_id_by_name\<close>\<close>
  "find_cycle [] target = Inr PNone"
| "find_cycle (PDict cy # rest) target =
     (if name_matches cy target then Inr (dict_get cy ''id'' PNone) else find_cycle rest target)"
| "find_cycle (_ # rest) target = Inl AttributeError"

definition cycles_request :: request where
  \<comment> \<open>\<^verbatim>\<open>QTestAPI.get_test_cycles\<close>\<close>
  "cycles_request =
     \<lparr>req_method = ''GET'', req_endpoint = Test_cycles, req_data = PNone, req_params = PNone\<rparr>"

definition find_test_cycle_id_body :: "'w transport \<Rightarrow> pyval \<Rightarrow> 'w manager \<Rightarrow> (error + pyval) \<times> 'w manager" where
  \<comment> \<open>the \<^verbatim>\<open>try\<close> block of \<^verbatim>\<open>find_test_cycle_id_by_name\<close>\<close>
  "find_test_cycle_id_body tr name s =
     (case make_request tr cycles_request s of
        (Inl e, s1) \<Rightarrow> (Inl e, s1)
      | (Inr resp, s1) \<Rightarrow>
          (case str_strip_lower name of
             Inl e \<Rightarrow> (Inl e, s1)
           | Inr target \<Rightarrow>
               (case py_iter (py_or resp (PList [])) of
                  Inl e \<Rightarrow> (Inl e, s1)
                | Inr cycles \<Rightarrow> (find_cycle cycles target, s1))))"

definition find_test_cycle_id_by_name :: "'w transport \<Rightarrow> pyval \<Rightarrow> 'w manager \<Rightarrow> (error + pyval) \<times> 'w manager" where
  \<comment> \<open>\<^verbatim>\<open>except Exception\<close>: log and \<^verbatim>\<open>return None\<close>\<close>
  "find_test_cycle_id_by_name tr name s =
     (case find_test_cycle_id_body tr name s of
        (Inl e, s1) \<Rightarrow> (Inr PNone, s1)
      | (Inr v, s1) \<Rightarrow> (Inr v, s1))"






subsection \<open>Steps\<close>










section \<open>Hierarchy manager\<close>

definition create_cycle_request :: "dict \<Rightarrow> request" where
  \<comment> \<open>\<^verbatim>\<open>QTestAPI.create_test_cycle\<close> without a parent: no query parameters\<close>
  "create_cycle_request d =
     \<lparr>req_method = ''POST'', req_endpoint = Test_cycles, req_data = PDict d, req_params = PNone\<rparr>"

definition create_test_cycle ::
  "'w transport \<Rightarrow> pyval \<Rightarrow> pyval \<Rightarrow> pyval \<Rightarrow> 'w manager \<Rightarrow> (error + pyval) \<times> 'w manager" where
  \<comment> \<open>\<^verbatim>\<open>QTestManager.create_test_cycle(name, description, parent_id)\<close>\<close>
  "create_test_cycle tr name description parent_id s =
     (let d0 = [(''name'', name)];
          d1 = (if py_truthy description then dict_set d0 ''description'' description else d0);
          d2 = (if py_truthy parent_id then dict_set d1 ''parent_id'' parent_id else d1)
      in case make_request tr (create_cycle_request d2) s of
           (Inl e, s1) \<Rightarrow> (Inl e, s1)
         | (Inr result, s1) \<Rightarrow>
             (case py_get result ''id'' PNone of
                Inl e \<Rightarrow> (Inl e, s1)
              | Inr _ \<Rightarrow> (Inr result, s1)))"

definition get_or_create_test_cycle_id_by_name ::
  "'w transport \<Rightarrow> pyval \<Rightarrow> pyval \<Rightarrow> 'w manager \<Rightarrow> (error + pyval) \<times> 'w manager" where
  "get_or_create_test_cycle_id_by_name tr cycle_name description s =
     (case find_test_cycle_id_by_name tr cycle_name s of
        (Inl e, s1) \<Rightarrow> (Inl e, s1)
      | (Inr cycle_id, s1) \<Rightarrow>
          if cycle_id \<noteq> PNone then (Inr cycle_id, s1)
          else (case create_test_cycle tr cycle_name description PNone s1 of
                  (Inl e, s2) \<Rightarrow> (Inl e, s2)
                | (Inr created, s2) \<Rightarrow> (py_get created ''id'' PNone, s2)))"

subsection \<open>Test runs\<close>

fun int_list :: "pyval list \<Rightarrow> error + pyval list" where
  \<comment> \<open>\<^verbatim>\<open>[int(i) for i in test_case_ids]\<close>\<close>
  "int_list [] = Inr []"
| "int_list (i # rest) =
     (case py_int i of
        Inl e \<Rightarrow> Inl e
      | Inr n \<Rightarrow> (case int_list rest of Inl e \<Rightarrow> Inl e | Inr ns \<Rightarrow> Inr (PInt n # ns)))"

definition append_property :: "dict \<Rightarrow> dict \<Rightarrow> dict" where
  \<comment> \<open>\<^verbatim>\<open>d['properties'] = d.get('properties', [])\<close>, then \<^verbatim>\<open>d['properties'].append(p)\<close>;
      every value stored under the key is a list\<close>
  "append_property d p =
     dict_set d ''properties''
       (case dict_get d ''properties'' (PList []) of
          PList ps \<Rightarrow> PList (ps @ [PDict p])
        | v \<Rightarrow> v)"

definition build_version_property :: dict where
  "build_version_property =
     [(''field_id'', PInt 12625659), (''field_name'', PStr ''Build Version''),
      (''field_value'', PStr ''[3643503]''), (''field_value_name'', PStr ''[New Value]'')]"

definition test_run_base :: "pyval \<Rightarrow> pyval \<Rightarrow> pyval \<Rightarrow> pyval \<Rightarrow> pyval \<Rightarrow> error + dict" where
  \<comment> \<open>lines 109-121 of \<^verbatim>\<open>qtest_manager.py\<close>: name, test case, test case ids, description\<close>
  "test_run_base name test_case_ids test_case_id test_case_version_id description =
     (let d0 = [(''name'', name)] in
      case (if test_case_id \<noteq> PNone
            then (case py_int test_case_id of
                    Inl e \<Rightarrow> Inl e
                  | Inr i \<Rightarrow>
                      (case (if test_case_version_id \<noteq> PNone
                             then (case py_int test_case_version_id of
                                     Inl e \<Rightarrow> Inl e | Inr v \<Rightarrow> Inr (PInt v))
                             else Inr PNone) of
                         Inl e \<Rightarrow> Inl e
                       | Inr version \<Rightarrow>
                           Inr (dict_set d0 ''test_case''
                                  (PDict [(''id'', PInt i), (''test_case_version_id'', version)]))))
            else Inr d0) of
        Inl e \<Rightarrow> Inl e
      | Inr d1 \<Rightarrow>
          (case (if test_case_ids \<noteq> PNone
                 then (case py_iter test_case_ids of
                         Inl e \<Rightarrow> Inl e
                       | Inr xs \<Rightarrow>
                           (case int_list xs of
                              Inl e \<Rightarrow> Inl e
                            | Inr ns \<Rightarrow> Inr (dict_set d1 ''test_case_ids'' (PList ns))))
                 else Inr d1) of
             Inl e \<Rightarrow> Inl e
           | Inr d2 \<Rightarrow>
               Inr (if py_truthy description then dict_set d2 ''description'' description else d2)))"

definition attach_properties :: "dict \<Rightarrow> pyval \<Rightarrow> pyval \<Rightarrow> pyval \<Rightarrow> dict" where
  \<comment> \<open>lines 122-142: the planned dates and the build version\<close>
  "attach_properties d3 planned_start_date planned_end_date build_version =
     (let d4 = (if py_truthy planned_start_date
                then append_property d3
                       [(''field_id'', PStr ''PlannedStartDate''), (''field_value'', planned_start_date)]
                else d3);
          d5 = (if py_truthy planned_end_date
                then append_property d4
                       [(''field_id'', PStr ''PlannedEndDate''), (''field_value'', planned_end_date)]
                else d4)
      in if build_version = PNone then append_property d5 build_version_property else d5)"

definition test_run_data ::
  "pyval \<Rightarrow> pyval \<Rightarrow> pyval \<Rightarrow> pyval \<Rightarrow> pyval \<Rightarrow> pyval \<Rightarrow> pyval \<Rightarrow> pyval \<Rightarrow> error + dict" where
  \<comment> \<open>the dictionary \<^verbatim>\<open>test_run_data\<close> when line 143 is reached\<close>
  "test_run_data name test_case_ids test_case_id test_case_version_id description
       planned_start_date planned_end_date build_version =
     (case test_run_base name test_case_ids test_case_id test_case_version_id description of
        Inl e \<Rightarrow> Inl e
      | Inr d3 \<Rightarrow> Inr (attach_properties d3 planned_start_date planned_end_date build_version))"

definition create_run_request :: "dict \<Rightarrow> pyval \<Rightarrow> pyval \<Rightarrow> request" where
  \<comment> \<open>\<^verbatim>\<open>QTestAPI.create_test_run(test_run_data, parent_id, parent_type)\<close>\<close>
  "create_run_request d parent_id parent_type =
     \<lparr>req_method = ''POST'', req_endpoint = Test_runs, req_data = PDict d,
      req_params = (if py_truthy parent_id \<and> py_truthy parent_type
                    then PDict [(''parentId'', parent_id), (''parentType'', parent_type)]
                    else PNone)\<rparr>"

definition create_test_run ::
  "'w transport \<Rightarrow> pyval \<Rightarrow> pyval \<Rightarrow> pyval \<Rightarrow> pyval \<Rightarrow> pyval \<Rightarrow> pyval \<Rightarrow> pyval \<Rightarrow> pyval \<Rightarrow> pyval \<Rightarrow> pyval
     \<Rightarrow> 'w manager \<Rightarrow> (error + pyval) \<times> 'w manager" where
  \<comment> \<open>\<^verbatim>\<open>QTestManager.create_test_run\<close>; parameters in the order of the signature\<close>
  "create_test_run tr name test_case_ids test_case_id test_case_version_id description
       planned_start_date planned_end_date build_version test_cycle_id test_cycle_name s =
     (case (if py_truthy test_cycle_id then (Inr (test_cycle_id, PStr ''test-cycle''), s)
            else if py_truthy test_cycle_name
            then (case get_or_create_test_cycle_id_by_name tr test_cycle_name PNone s of
                    (Inl e, s1) \<Rightarrow> (Inl e, s1)
                  | (Inr cycle_id, s1) \<Rightarrow> (Inr (cycle_id, PStr ''test-cycle''), s1))
            else (Inr (PNone, PNone), s)) of
        (Inl e, s1) \<Rightarrow> (Inl e, s1)
      | (Inr (params_parent_id, params_parent_type), s1) \<Rightarrow>
          (case test_run_data name test_case_ids test_case_id test_case_version_id description
                  planned_start_date planned_end_date build_version of
             Inl e \<Rightarrow> (Inl e, s1)
           | Inr d \<Rightarrow>
               (case make_request tr (create_run_request d params_parent_id params_parent_type) s1 of
                  (Inl e, s2) \<Rightarrow> (Inl e, s2)
                | (Inr result, s2) \<Rightarrow>
                    (case py_get result ''id'' PNone of
                       Inl e \<Rightarrow> (Inl e, s2)
                     | Inr _ \<Rightarrow> (Inr result, s2)))))"

section \<open>Step log composer\<close>

text \<open>
  \<^verbatim>\<open>QTestRobotLibrary.append_qtest_test_step_log\<close> first builds the step with
  \<^verbatim>\<open>create_qtest_test_step_log\<close> (line 567), whose exception, if any, leaves the
  function before the container is looked at; \<open>created\<close> is the outcome of that call.
  Lines 575-589 then place the step. Python appends in place and returns the same
  object; the model returns the container's new value.
\<close>

definition append_qtest_test_step_log :: "error + pyval \<Rightarrow> pyval \<Rightarrow> error + pyval" where
  "append_qtest_test_step_log created container =
     (case created of
        Inl e \<Rightarrow> Inl e
      | Inr step \<Rightarrow>
          if container = PNone \<or> container = PStr [] then Inr (PList [step])
          else (case container of
                  PList xs \<Rightarrow> Inr (PList (xs @ [step]))
                | PDict d \<Rightarrow>
                    (case dict_get d ''logs'' PNone of
                       PNone \<Rightarrow> Inr (PDict (dict_set d ''logs'' (PList [step])))
                     | PList logs \<Rightarrow> Inr (PDict (dict_set d ''logs'' (PList (logs @ [step]))))
                     | _ \<Rightarrow> Inl (ValueError ''Expected 'logs' key in dict to be a list''))
                | _ \<Rightarrow>
                    Inl (ValueError ''Container must be a list, a dict (with 'logs'), or empty/None to start a new list'')))"

definition step_logs :: "pyval \<Rightarrow> pyval list" where
  \<comment> \<open>the ordered step-log collection a container holds\<close>
  "step_logs container =
     (case container of
        PList xs \<Rightarrow> xs
      | PDict d \<Rightarrow> (case dict_get d ''logs'' PNone of PList logs \<Rightarrow> logs | _ \<Rightarrow> [])
      | _ \<Rightarrow> [])"

definition run_properties :: "dict \<Rightarrow> pyval list" where
  \<comment> \<open>the entries of the \<^verbatim>\<open>properties\<close> list of a payload, none when the key is absent\<close>
  "run_properties d = (case dict_get d ''properties'' (PList []) of PList ps \<Rightarrow> ps | _ \<Rightarrow> [])"

definition props_ok :: "dict \<Rightarrow> bool" where
  \<comment> \<open>the value under \<^verbatim>\<open>properties\<close>, if any, is a list\<close>
  "props_ok d = (\<exists>ps. dict_get d ''properties'' (PList []) = PList ps)"

section \<open>Example platforms\<close>

text \<open>
  Two transports on which the operations are run at concrete inputs. The first is a
  small platform whose state is its list of test cycles: it lists them, stores a new
  cycle under the next free id, knows the statuses Passed and Failed, serves one page
  of test cases and three steps for any test case, and accepts test logs and test
  runs. The second fails every request.
\<close>

definition example_transport :: "dict list transport" where
  "example_transport r w =
     (if req_method r = ''GET'' then
        (case req_endpoint r of
           Execution_statuses \<Rightarrow>
             (Inr (PList [PDict [(''id'', PInt 1), (''name'', PStr ''Passed'')],
                          PDict [(''id'', PInt 2), (''name'', PStr ''Failed'')]]), w)
         | Test_cycles \<Rightarrow> (Inr (PList (map PDict w)), w)
         | Test_cases \<Rightarrow>
             (if dict_get (case req_params r of PDict p \<Rightarrow> p | _ \<Rightarrow> []) ''page'' PNone = PInt 1
              then (Inr (PList [PDict [(''id'', PInt 10), (''name'', PStr ''Login'')]]), w)
              else (Inr (PList []), w))
         | Test_steps _ \<Rightarrow>
             (Inr (PList [PDict [(''id'', PInt 101), (''order'', PInt 1)],
                          PDict [(''id'', PInt 102), (''index'', PStr ''2'')],
                          PDict [(''id'', PInt 103), (''position'', PInt 3)]]), w)
         | _ \<Rightarrow> (Inr PNone, w))
      else
        (case req_endpoint r of
           Test_cycles \<Rightarrow>
             (let c = dict_set (case req_data r of PDict d \<Rightarrow> d | _ \<Rightarrow> [])
                        ''id'' (PInt (int (length w) + 1))
              in (Inr (PDict c), w @ [c]))
         | Test_logs _ \<Rightarrow> (Inr (PDict [(''id'', PInt 200)]), w)
         | Test_runs \<Rightarrow> (Inr (PDict [(''id'', PInt 100)]), w)
         | _ \<Rightarrow> (Inr PNone, w)))"

definition ascii_upper :: "string \<Rightarrow> string" where
  \<comment> \<open>a value for the parameter \<open>upper\<close> in the examples: it capitalises a-z, as
      \<^verbatim>\<open>str.upper()\<close> does on the ASCII texts of the examples\<close>
  "ascii_upper s =
     map (\<lambda>c. let n = (of_char c :: nat) in if 97 \<le> n \<and> n \<le> 122 then char_of (n - 32) else c) s"

definition failing_transport :: "'w transport" where
  "failing_transport r w = (Inl RequestException, w)"

definition fresh_manager :: "'w \<Rightarrow> 'w manager" where
  \<comment> \<open>the state \<^verbatim>\<open>QTestManager.__init__\<close> leaves: nothing sent, no cached statuses\<close>
  "fresh_manager w = \<lparr>world = w, sent = [], execution_statuses = None\<rparr>"

section \<open>Basic facts\<close>

lemma map_of_dict_set: "map_of (dict_set d k v) = (map_of d)(k \<mapsto> v)"
  by (induction d k v rule: dict_set.induct) auto

lemma keys_dict_set: "fst ` set (dict_set d k v) = insert k (fst ` set d)"
  by (induction d k v rule: dict_set.induct) auto

lemma distinct_dict_set: "distinct (map fst d) \<Longrightarrow> distinct (map fst (dict_set d k v))"
proof (induction d k v rule: dict_set.induct)
  case (1 k v)
  then show ?case by simp
next
  case (2 k' v' d k v)
  then show ?case
    using keys_dict_set [of d k v] by auto
qed

lemma dict_get_dict_set:
  "dict_get (dict_set d k v) k' dflt = (if k' = k then v else dict_get d k' dflt)"
  by (simp add: dict_get_def map_of_dict_set)

lemma make_request_facts:
  "make_request tr r s = (res, s1) \<Longrightarrow>
     sent s1 = sent s @ [r] \<and> execution_statuses s1 = execution_statuses s
     \<and> tr r (world s) = (res, world s1)"
  by (auto simp: make_request_def split: prod.splits)

section \<open>The status registry is filled once\<close>

lemma get_execution_statuses_hit:
  "execution_statuses s = Some m \<Longrightarrow> get_execution_statuses upper tr s = (Inr m, s)"
  by (simp add: get_execution_statuses_def)

lemma status_pair_item:
  assumes "status_pair status = Some (n, i)"
  shows "py_item status ''name'' = Inr (PStr n)" and "py_item status ''id'' = Inr i"
  using assms
  by (auto simp: status_pair_def dict_item_def split: pyval.splits option.splits)

text \<open>
  The comprehension over well-formed statuses never raises. A later status overwrites
  an earlier one of the same uppercased name, and the keys stay distinct.
\<close>

lemma status_entries_pairs:
  assumes "map status_pair xs = map Some pairs"
  shows "\<exists>m. status_entries upper xs acc = Inr m
           \<and> map_of m = map_of (rev (map (\<lambda>p. (upper (fst p), snd p)) pairs) @ acc)
           \<and> (distinct (map fst acc) \<longrightarrow> distinct (map fst m))"
  using assms
proof (induction xs arbitrary: pairs acc)
  case Nil
  then show ?case by simp
next
  case (Cons status rest)
  from Cons.prems obtain n i ps where
    pairs: "pairs = (n, i) # ps"
    and st: "status_pair status = Some (n, i)"
    and rest: "map status_pair rest = map Some ps"
    by (cases pairs) auto
  from Cons.IH [OF rest, of "dict_set acc (upper n) i"] obtain m where
    m: "status_entries upper rest (dict_set acc (upper n) i) = Inr m"
    and mo: "map_of m = map_of (rev (map (\<lambda>p. (upper (fst p), snd p)) ps) @ dict_set acc (upper n) i)"
    and di: "distinct (map fst (dict_set acc (upper n) i)) \<longrightarrow> distinct (map fst m)"
    by blast
  have step: "status_entries upper (status # rest) acc = Inr m"
    using status_pair_item [OF st] m by simp
  have "map_of m = map_of (rev (map (\<lambda>p. (upper (fst p), snd p)) pairs) @ acc)"
    unfolding mo pairs by (simp add: map_of_dict_set map_add_def fun_eq_iff split: option.splits)
  with step di show ?case
    by (auto simp: distinct_dict_set)
qed

text \<open>
  C9. Let the manager hold no mapping yet, and let the platform answer the request for
  the status list with a list of statuses, each a dictionary with a text \<^verbatim>\<open>name\<close> and
  an \<^verbatim>\<open>id\<close>. Then \<open>get_execution_statuses\<close> sends that one request, returns a
  mapping and stores it. The mapping binds the uppercased name of every status to its
  id (to the id of the last one, when two names are uppercased alike) and nothing
  else, each key once. From then on every call in a state that holds this mapping,
  whatever the platform would answer, returns the same mapping and leaves the state,
  and with it the list of requests sent, as it is.
\<close>

theorem execution_statuses_populated_once:
  assumes "execution_statuses s = None"
    and "tr statuses_request (world s) = (Inr (PList statuses), w')"
    and "map status_pair statuses = map Some pairs"
  shows "\<exists>m. get_execution_statuses upper tr s
                = (Inr m, s\<lparr>world := w', sent := sent s @ [statuses_request],
                             execution_statuses := Some m\<rparr>)
           \<and> map_of m = map_of (rev (map (\<lambda>p. (upper (fst p), snd p)) pairs))
           \<and> distinct (map fst m)
           \<and> (\<forall>tr2 s2. execution_statuses s2 = Some m \<longrightarrow>
                 get_execution_statuses upper tr2 s2 = (Inr m, s2))"
proof -
  from status_entries_pairs [OF assms(3), of upper "[]"] obtain m where
    m: "status_entries upper statuses [] = Inr m"
    and mo: "map_of m = map_of (rev (map (\<lambda>p. (upper (fst p), snd p)) pairs))"
    and di: "distinct (map fst m)"
    by auto
  have "get_execution_statuses upper tr s
          = (Inr m, s\<lparr>world := w', sent := sent s @ [statuses_request],
                       execution_statuses := Some m\<rparr>)"
    using assms(1,2) m
    by (simp add: get_execution_statuses_def make_request_def status_mapping_def)
  with mo di show ?thesis
    by (auto simp: get_execution_statuses_hit)
qed

theorem execution_statuses_populated_once_witness:
  "get_execution_statuses ascii_upper example_transport (fresh_manager [])
     = (Inr [(''PASSED'', PInt 1), (''FAILED'', PInt 2)],
        \<lparr>world = [], sent = [statuses_request],
         execution_statuses = Some [(''PASSED'', PInt 1), (''FAILED'', PInt 2)]\<rparr>)
   \<and> get_execution_statuses ascii_upper failing_transport
       \<lparr>world = [] :: dict list, sent = [statuses_request],
        execution_statuses = Some [(''PASSED'', PInt 1), (''FAILED'', PInt 2)]\<rparr>
     = (Inr [(''PASSED'', PInt 1), (''FAILED'', PInt 2)],
        \<lparr>world = [] :: dict list, sent = [statuses_request],
         execution_statuses = Some [(''PASSED'', PInt 1), (''FAILED'', PInt 2)]\<rparr>)"
proof -
  let ?statuses = "[PDict [(''id'', PInt 1), (''name'', PStr ''Passed'')],
                    PDict [(''id'', PInt 2), (''name'', PStr ''Failed'')]]"
  let ?pairs = "[(''Passed'', PInt 1), (''Failed'', PInt 2)]"
  let ?m = "[(''PASSED'', PInt 1), (''FAILED'', PInt 2)]"
  have empty: "execution_statuses (fresh_manager [] :: dict list manager) = None"
    by (simp add: fresh_manager_def)
  have answer: "example_transport statuses_request (world (fresh_manager [] :: dict list manager))
                  = (Inr (PList ?statuses), [])"
    by (simp add: example_transport_def statuses_request_def fresh_manager_def)
  have wf: "map status_pair ?statuses = map Some ?pairs"
    by (simp add: status_pair_def)
  from execution_statuses_populated_once
         [where tr = example_transport and s = "fresh_manager [] :: dict list manager"
            and upper = ascii_upper, OF empty answer wf]
  obtain m where
    first: "get_execution_statuses ascii_upper example_transport (fresh_manager [])
              = (Inr m, (fresh_manager [])\<lparr>world := [],
                           sent := sent (fresh_manager [] :: dict list manager) @ [statuses_request],
                           execution_statuses := Some m\<rparr>)"
    and later: "\<forall>tr2 s2. execution_statuses s2 = Some m \<longrightarrow>
                 get_execution_statuses ascii_upper tr2 (s2 :: dict list manager) = (Inr m, s2)"
    by (elim exE conjE)
  have computed: "fst (get_execution_statuses ascii_upper example_transport (fresh_manager [])) = Inr ?m"
    by code_simp
  with first have m: "m = ?m"
    by simp
  have a: "get_execution_statuses ascii_upper example_transport (fresh_manager [])
     = (Inr ?m, \<lparr>world = [], sent = [statuses_request], execution_statuses = Some ?m\<rparr>)"
    using first unfolding m by (simp add: fresh_manager_def)
  have b: "get_execution_statuses ascii_upper failing_transport
       \<lparr>world = [] :: dict list, sent = [statuses_request], execution_statuses = Some ?m\<rparr>
     = (Inr ?m, \<lparr>world = [] :: dict list, sent = [statuses_request], execution_statuses = Some ?m\<rparr>)"
    using later unfolding m by simp
  from a b show ?thesis
    by (rule conjI)
qed

section \<open>Reporting one result\<close>

lemma get_execution_statuses_sent:
  assumes "get_execution_statuses upper tr s = (res, s1)"
  shows "sent s1 = sent s \<or> sent s1 = sent s @ [statuses_request]"
proof (cases "execution_statuses s")
  case (Some m)
  with assms show ?thesis by (simp add: get_execution_statuses_def)
next
  case None
  obtain r s' where req: "make_request tr statuses_request s = (r, s')"
    by (cases "make_request tr statuses_request s")
  from make_request_facts [OF req] have "sent s' = sent s @ [statuses_request]" by simp
  with assms None req show ?thesis
    by (auto simp: get_execution_statuses_def split: sum.splits)
qed

lemma test_log_data_status:
  assumes "test_log_data test_case_id status_id status_upper steplogs test_case_version_id note
             execution_time defects exe_start_date exe_end_date = Inr d"
  shows "map_of d ''status'' = Some (PDict [(''id'', status_id), (''name'', PStr status_upper)])"
  using assms
  by (auto simp: test_log_data_def Let_def map_of_dict_set split: if_splits sum.splits)

lemma test_log_data_built:
  assumes "py_item steplogs ''logs'' = Inr logs"
    and "py_truthy defects \<longrightarrow> (\<exists>xs. py_iter defects = Inr xs)"
  shows "\<exists>d. test_log_data test_case_id status_id status_upper steplogs test_case_version_id note
             execution_time defects exe_start_date exe_end_date = Inr d"
  using assms by (auto simp: test_log_data_def Let_def)

text \<open>
  C3. Let the registry lookup of a call succeed with the mapping \<open>statuses\<close>, and let
  the call pass the status name \<open>st\<close> and some \<^verbatim>\<open>steplogs\<close>. If the uppercased name
  is not a key of the mapping, \<open>update_test_result\<close> raises the invalid-status error,
  which carries the name and the list of all keys of the mapping, and it stops in the
  state the lookup left: it has sent nothing but, at most, the one request of the
  status list. If the uppercased name is a key, then the call either fails before
  submitting, leaving that state, or it sends exactly one further request, the test
  log, whose \<^verbatim>\<open>status\<close> is \<^verbatim>\<open>{id: the mapped id, name: the uppercased name}\<close>; and it
  does send it whenever \<^verbatim>\<open>steplogs['logs']\<close> exists and the defects, if any are
  given, can be iterated over.
\<close>

theorem update_test_result_status_check:
  assumes reg: "get_execution_statuses upper tr s = (Inr statuses, s1)"
  shows "(map_of statuses (upper st) = None \<longrightarrow>
            update_test_result upper tr test_run_id test_case_id (PStr st) (Some steplogs)
                test_case_version_id note execution_time defects exe_start_date exe_end_date s
              = (Inl (InvalidStatus st (map fst statuses)), s1)
            \<and> (sent s1 = sent s \<or> sent s1 = sent s @ [statuses_request]))
       \<and> (\<forall>status_id. map_of statuses (upper st) = Some status_id \<longrightarrow>
            (\<exists>res s2.
               update_test_result upper tr test_run_id test_case_id (PStr st) (Some steplogs)
                   test_case_version_id note execution_time defects exe_start_date exe_end_date s
                 = (res, s2)
               \<and> ((\<exists>e. res = Inl e) \<and> s2 = s1
                    \<or> (\<exists>d. sent s2 = sent s1 @ [add_test_log_request test_run_id d]
                          \<and> map_of d ''status'' =
                              Some (PDict [(''id'', status_id), (''name'', PStr (upper st))])))
               \<and> ((\<exists>logs. py_item steplogs ''logs'' = Inr logs)
                     \<and> (py_truthy defects \<longrightarrow> (\<exists>xs. py_iter defects = Inr xs)) \<longrightarrow>
                    (\<exists>d. sent s2 = sent s1 @ [add_test_log_request test_run_id d]))))"
proof (intro conjI impI allI)
  assume "map_of statuses (upper st) = None"
  with reg show "update_test_result upper tr test_run_id test_case_id (PStr st) (Some steplogs)
                test_case_version_id note execution_time defects exe_start_date exe_end_date s
              = (Inl (InvalidStatus st (map fst statuses)), s1)"
    by (simp add: update_test_result_def)
next
  from get_execution_statuses_sent [OF reg]
  show "sent s1 = sent s \<or> sent s1 = sent s @ [statuses_request]" .
next
  fix status_id
  assume present: "map_of statuses (upper st) = Some status_id"
  let ?data = "test_log_data test_case_id status_id (upper st) steplogs
                 test_case_version_id note execution_time defects exe_start_date exe_end_date"
  let ?call = "update_test_result upper tr test_run_id test_case_id (PStr st) (Some steplogs)
                   test_case_version_id note execution_time defects exe_start_date exe_end_date s"
  show "\<exists>res s2. ?call = (res, s2)
               \<and> ((\<exists>e. res = Inl e) \<and> s2 = s1
                    \<or> (\<exists>d. sent s2 = sent s1 @ [add_test_log_request test_run_id d]
                          \<and> map_of d ''status'' =
                              Some (PDict [(''id'', status_id), (''name'', PStr (upper st))])))
               \<and> ((\<exists>logs. py_item steplogs ''logs'' = Inr logs)
                     \<and> (py_truthy defects \<longrightarrow> (\<exists>xs. py_iter defects = Inr xs)) \<longrightarrow>
                    (\<exists>d. sent s2 = sent s1 @ [add_test_log_request test_run_id d]))"
  proof (cases ?data)
    case (Inl e)
    with reg present have "?call = (Inl e, s1)"
      by (simp add: update_test_result_def)
    moreover have "\<not> ((\<exists>logs. py_item steplogs ''logs'' = Inr logs)
                     \<and> (py_truthy defects \<longrightarrow> (\<exists>xs. py_iter defects = Inr xs)))"
    proof
      assume "(\<exists>logs. py_item steplogs ''logs'' = Inr logs)
                     \<and> (py_truthy defects \<longrightarrow> (\<exists>xs. py_iter defects = Inr xs))"
      then obtain logs where "py_item steplogs ''logs'' = Inr logs"
        and "py_truthy defects \<longrightarrow> (\<exists>xs. py_iter defects = Inr xs)"
        by blast
      from test_log_data_built [OF this] obtain d where "?data = Inr d"
        by blast
      with Inl show False by simp
    qed
    ultimately show ?thesis by auto
  next
    case (Inr d)
    obtain r s2 where req: "make_request tr (add_test_log_request test_run_id d) s1 = (r, s2)"
      by (cases "make_request tr (add_test_log_request test_run_id d) s1")
    from make_request_facts [OF req]
    have snt: "sent s2 = sent s1 @ [add_test_log_request test_run_id d]" by simp
    from reg present Inr req have "\<exists>res. ?call = (res, s2)"
      by (auto simp: update_test_result_def split: sum.splits)
    with snt test_log_data_status [OF Inr] show ?thesis by blast
  qed
qed

theorem update_test_result_status_check_witness:
  "update_test_result ascii_upper example_transport (PInt 100) (PInt 10) (PStr ''blocked'')
       (Some (PDict [(''logs'', PList [])])) PNone PNone PNone PNone PNone PNone (fresh_manager [])
     = (Inl (InvalidStatus ''blocked'' [''PASSED'', ''FAILED'']),
        \<lparr>world = [], sent = [statuses_request],
         execution_statuses = Some [(''PASSED'', PInt 1), (''FAILED'', PInt 2)]\<rparr>)
   \<and> (\<exists>res s2 d.
         update_test_result ascii_upper example_transport (PInt 100) (PInt 10) (PStr ''passed'')
             (Some (PDict [(''logs'', PList [])])) PNone PNone PNone PNone PNone PNone (fresh_manager [])
           = (res, s2)
         \<and> sent s2 = [statuses_request, add_test_log_request (PInt 100) d]
         \<and> map_of d ''status'' = Some (PDict [(''id'', PInt 1), (''name'', PStr ''PASSED'')]))"
proof -
  let ?m = "[(''PASSED'', PInt 1), (''FAILED'', PInt 2)]"
  let ?s1 = "\<lparr>world = [] :: dict list, sent = [statuses_request], execution_statuses = Some ?m\<rparr>"
  have reg: "get_execution_statuses ascii_upper example_transport (fresh_manager []) = (Inr ?m, ?s1)"
    by code_simp
  have absent: "map_of ?m (ascii_upper ''blocked'') = None"
    by code_simp
  have present: "map_of ?m (ascii_upper ''passed'') = Some (PInt 1)"
    by code_simp
  have up: "ascii_upper ''passed'' = ''PASSED''"
    by code_simp
  have logs: "(\<exists>logs. py_item (PDict [(''logs'', PList [])]) ''logs'' = Inr logs)
           \<and> (py_truthy PNone \<longrightarrow> (\<exists>xs. py_iter PNone = Inr xs))"
    by (simp add: dict_item_def)
  have invalid: "update_test_result ascii_upper example_transport (PInt 100) (PInt 10) (PStr ''blocked'')
       (Some (PDict [(''logs'', PList [])])) PNone PNone PNone PNone PNone PNone (fresh_manager [])
     = (Inl (InvalidStatus ''blocked'' (map fst ?m)), ?s1)"
    by (rule update_test_result_status_check
          [OF reg, THEN conjunct1, rule_format, OF absent, THEN conjunct1])
  have "\<exists>res s2.
      update_test_result ascii_upper example_transport (PInt 100) (PInt 10) (PStr ''passed'')
          (Some (PDict [(''logs'', PList [])])) PNone PNone PNone PNone PNone PNone (fresh_manager [])
        = (res, s2)
      \<and> ((\<exists>e. res = Inl e) \<and> s2 = ?s1
           \<or> (\<exists>d. sent s2 = sent ?s1 @ [add_test_log_request (PInt 100) d]
                  \<and> map_of d ''status'' =
                      Some (PDict [(''id'', PInt 1), (''name'', PStr (ascii_upper ''passed''))])))
      \<and> ((\<exists>logs. py_item (PDict [(''logs'', PList [])]) ''logs'' = Inr logs)
           \<and> (py_truthy PNone \<longrightarrow> (\<exists>xs. py_iter PNone = Inr xs)) \<longrightarrow>
           (\<exists>d. sent s2 = sent ?s1 @ [add_test_log_request (PInt 100) d]))"
    by (rule update_test_result_status_check [OF reg, THEN conjunct2, rule_format, OF present])
  with logs obtain res s2 where
    call: "update_test_result ascii_upper example_transport (PInt 100) (PInt 10) (PStr ''passed'')
             (Some (PDict [(''logs'', PList [])])) PNone PNone PNone PNone PNone PNone (fresh_manager [])
           = (res, s2)"
    and shape: "(\<exists>e. res = Inl e) \<and> s2 = ?s1
                 \<or> (\<exists>d. sent s2 = sent ?s1 @ [add_test_log_request (PInt 100) d]
                        \<and> map_of d ''status'' =
                            Some (PDict [(''id'', PInt 1), (''name'', PStr (ascii_upper ''passed''))]))"
    and submitted: "\<exists>d. sent s2 = sent ?s1 @ [add_test_log_request (PInt 100) d]"
    by blast
  from submitted have "s2 \<noteq> ?s1"
    by auto
  with shape up obtain d where
    "sent s2 = [statuses_request, add_test_log_request (PInt 100) d]"
    "map_of d ''status'' = Some (PDict [(''id'', PInt 1), (''name'', PStr ''PASSED'')])"
    by auto
  with call invalid show ?thesis
    by auto
qed

section \<open>Reporting many results\<close>

lemma bulk_loop_step:
  "bulk_loop upper tr run (x # xs) acc s =
     (case report_item upper tr run x s of
        (out, s1) \<Rightarrow>
          (case item_entry x out of
             Inl e \<Rightarrow> (Inl e, s1)
           | Inr en \<Rightarrow> bulk_loop upper tr run xs (acc @ [en]) s1))"
  by (simp add: item_entry_def split: prod.splits sum.splits)

lemma bulk_loop_acc:
  "bulk_loop upper tr run items acc s =
     (case bulk_loop upper tr run items [] s of
        (Inr rs, s') \<Rightarrow> (Inr (acc @ rs), s')
      | (Inl e, s') \<Rightarrow> (Inl e, s'))"
proof (induction items arbitrary: acc s)
  case Nil
  then show ?case by simp
next
  case (Cons x xs)
  obtain out s1 where rep: "report_item upper tr run x s = (out, s1)"
    by (cases "report_item upper tr run x s")
  show ?case
  proof (cases "item_entry x out")
    case (Inl e)
    with rep show ?thesis
      by (simp only: bulk_loop_step) simp
  next
    case (Inr en)
    have a: "bulk_loop upper tr run (x # xs) acc s = bulk_loop upper tr run xs (acc @ [en]) s1"
      using rep Inr by (simp only: bulk_loop_step) simp
    have b: "bulk_loop upper tr run (x # xs) [] s = bulk_loop upper tr run xs [en] s1"
      using rep Inr by (simp only: bulk_loop_step) simp
    obtain r s' where rest: "bulk_loop upper tr run xs [] s1 = (r, s')"
      by (cases "bulk_loop upper tr run xs [] s1")
    show ?thesis
      unfolding a b
      by (subst Cons.IH [of "acc @ [en]"], subst Cons.IH [of "[en]"])
         (simp add: rest split: sum.splits)
  qed
qed

lemma bulk_loop_snd_acc:
  "snd (bulk_loop upper tr run items acc s) = snd (bulk_loop upper tr run items [] s)"
  by (subst bulk_loop_acc) (simp split: prod.splits sum.splits)

lemma bulk_loop_entries:
  assumes "\<forall>it \<in> set items. map_of it ''test_case_id'' \<noteq> None"
  shows "\<exists>rs s'. bulk_loop upper tr run items [] s = (Inr rs, s')
           \<and> length rs = length items
           \<and> (\<forall>i < length items.
                 item_entry (items ! i)
                   (fst (report_item upper tr run (items ! i) (snd (bulk_loop upper tr run (take i items) [] s))))
                 = Inr (rs ! i))"
  using assms
proof (induction items arbitrary: s)
  case Nil
  then show ?case by simp
next
  case (Cons x xs)
  obtain out s1 where rep: "report_item upper tr run x s = (out, s1)"
    by (cases "report_item upper tr run x s")
  from Cons.prems obtain cid where cid: "map_of x ''test_case_id'' = Some cid"
    by auto
  then obtain en where en: "item_entry x out = Inr en"
    by (cases out) (simp_all add: item_entry_def dict_item_def)
  from Cons.prems have "\<forall>it \<in> set xs. map_of it ''test_case_id'' \<noteq> None"
    by simp
  from Cons.IH [OF this, of s1] obtain rs s' where
    rest: "bulk_loop upper tr run xs [] s1 = (Inr rs, s')"
    and len: "length rs = length xs"
    and ent: "\<forall>i < length xs.
                 item_entry (xs ! i)
                   (fst (report_item upper tr run (xs ! i) (snd (bulk_loop upper tr run (take i xs) [] s1))))
                 = Inr (rs ! i)"
    by blast
  have step: "\<And>ys acc. bulk_loop upper tr run (x # ys) acc s = bulk_loop upper tr run ys (acc @ [en]) s1"
    using rep en by (simp only: bulk_loop_step) simp
  have whole: "bulk_loop upper tr run (x # xs) [] s = (Inr (en # rs), s')"
    by (simp only: step) (subst bulk_loop_acc, simp add: rest)
  have "item_entry ((x # xs) ! i)
          (fst (report_item upper tr run ((x # xs) ! i) (snd (bulk_loop upper tr run (take i (x # xs)) [] s))))
        = Inr ((en # rs) ! i)" if "i < length (x # xs)" for i
  proof (cases i)
    case 0
    with rep en show ?thesis by simp
  next
    case (Suc j)
    with that have j: "j < length xs" by simp
    have "snd (bulk_loop upper tr run (take i (x # xs)) [] s) = snd (bulk_loop upper tr run (take j xs) [] s1)"
      by (simp only: Suc take_Suc_Cons step) (rule bulk_loop_snd_acc)
    with ent j Suc show ?thesis by simp
  qed
  with whole len show ?case by simp
qed

text \<open>
  C2. For a batch of items that each have the \<^verbatim>\<open>test_case_id\<close> their substitute
  record is made of, \<open>bulk_update_test_results\<close> returns a list with one entry for each
  item, in the order of the items. The entry at position \<open>i\<close> comes from the call
  made for item \<open>i\<close>, in the state the items before it have left: the test log if the
  call returned one, and otherwise the substitute record made of the exception and the
  item's \<^verbatim>\<open>test_case_id\<close>. No failure of a call ends the loop.
\<close>

theorem bulk_update_isolates_failures:
  assumes "\<forall>it \<in> set items. map_of it ''test_case_id'' \<noteq> None"
  shows "\<exists>rs s'. bulk_update_test_results upper tr run items s = (Inr rs, s')
           \<and> length rs = length items
           \<and> (\<forall>i < length items.
                 rs ! i =
                   (case fst (report_item upper tr run (items ! i)
                               (snd (bulk_update_test_results upper tr run (take i items) s))) of
                      Inr result \<Rightarrow> TestLog result
                    | Inl e \<Rightarrow> ErrorRecord e (dict_get (items ! i) ''test_case_id'' PNone)))"
proof -
  from bulk_loop_entries [OF assms, of upper tr run s] obtain rs s' where
    whole: "bulk_loop upper tr run items [] s = (Inr rs, s')"
    and len: "length rs = length items"
    and ent: "\<forall>i < length items.
                 item_entry (items ! i)
                   (fst (report_item upper tr run (items ! i) (snd (bulk_loop upper tr run (take i items) [] s))))
                 = Inr (rs ! i)"
    by blast
  have "rs ! i =
          (case fst (report_item upper tr run (items ! i) (snd (bulk_loop upper tr run (take i items) [] s))) of
             Inr result \<Rightarrow> TestLog result
           | Inl e \<Rightarrow> ErrorRecord e (dict_get (items ! i) ''test_case_id'' PNone))"
    if "i < length items" for i
  proof -
    from that assms obtain cid where cid: "map_of (items ! i) ''test_case_id'' = Some cid"
      by (metis nth_mem option.exhaust)
    from ent that have
      "item_entry (items ! i)
         (fst (report_item upper tr run (items ! i) (snd (bulk_loop upper tr run (take i items) [] s))))
       = Inr (rs ! i)"
      by blast
    with cid show ?thesis
      by (auto simp: item_entry_def dict_item_def dict_get_def split: sum.splits)
  qed
  with whole len show ?thesis
    by (simp add: bulk_update_test_results_def)
qed

theorem bulk_update_isolates_failures_witness:
  "bulk_update_test_results ascii_upper example_transport (PInt 100)
       [[(''test_case_id'', PInt 10), (''status'', PStr ''PASSED'')],
        [(''test_case_id'', PInt 11)]] (fresh_manager [])
     = (Inr [ErrorRecord (MissingArgument ''steplogs'') (PInt 10),
             ErrorRecord (KeyError ''status'') (PInt 11)], fresh_manager [])"
proof -
  let ?items = "[[(''test_case_id'', PInt 10), (''status'', PStr ''PASSED'')],
                 [(''test_case_id'', PInt 11)]]"
  have keys: "\<forall>it \<in> set ?items. map_of it ''test_case_id'' \<noteq> None"
    by simp
  from bulk_update_isolates_failures [OF keys, of ascii_upper example_transport "PInt 100" "fresh_manager []"]
  obtain rs s' where
    "bulk_update_test_results ascii_upper example_transport (PInt 100) ?items (fresh_manager []) = (Inr rs, s')"
    and "length rs = length ?items"
    by blast
  moreover have
    "bulk_update_test_results ascii_upper example_transport (PInt 100) ?items (fresh_manager [])
       = (Inr [ErrorRecord (MissingArgument ''steplogs'') (PInt 10),
               ErrorRecord (KeyError ''status'') (PInt 11)], fresh_manager [])"
    by code_simp
  ultimately show ?thesis
    by simp
qed

text \<open>
  C1 does not hold of the code. \<open>bulk_update_test_results\<close> calls
  \<open>update_test_result\<close> without the required argument \<^verbatim>\<open>steplogs\<close>, so the call
  raises before the status is looked at and nothing is sent: on the batch of the
  repository's own test \<^verbatim>\<open>test_bulk_update_test_results\<close>, two items with the valid
  statuses PASSED and FAILED, both entries are substitute records, where the test expects
  the logs 201 and 202.
\<close>

theorem bulk_update_valid_status_gives_error_record:
  "bulk_update_test_results ascii_upper example_transport (PInt 100)
     [[(''test_case_id'', PInt 10), (''status'', PStr ''PASSED''), (''note'', PStr ''Test 1 passed'')],
      [(''test_case_id'', PInt 11), (''status'', PStr ''FAILED''), (''note'', PStr ''Test 2 failed'')]]
     (fresh_manager [])
   = (Inr [ErrorRecord (MissingArgument ''steplogs'') (PInt 10),
           ErrorRecord (MissingArgument ''steplogs'') (PInt 11)], fresh_manager [])"
  by code_simp

section \<open>The payload of a new test run\<close>

lemma subset_keys_dict_set:
  "fst ` set d \<subseteq> K \<Longrightarrow> k \<in> K' \<Longrightarrow> K \<subseteq> K' \<Longrightarrow> fst ` set (dict_set d k v) \<subseteq> K'"
  by (auto simp: keys_dict_set)

lemma append_property_keys:
  "fst ` set (append_property d p) = insert ''properties'' (fst ` set d)"
  by (simp add: append_property_def keys_dict_set)

lemma run_properties_append:
  "props_ok d \<Longrightarrow> run_properties (append_property d p) = run_properties d @ [PDict p]"
  by (auto simp: props_ok_def run_properties_def append_property_def dict_get_dict_set)

lemma props_ok_append: "props_ok d \<Longrightarrow> props_ok (append_property d p)"
  by (auto simp: props_ok_def append_property_def dict_get_dict_set)

lemma test_run_base_keys:
  assumes "test_run_base name ids cid ver descr = Inr d3"
  shows "fst ` set d3 \<subseteq> {''name'', ''test_case'', ''test_case_ids'', ''description''}"
proof -
  from assms obtain d1 where
    d1: "d1 = [(''name'', name)] \<or> (\<exists>v. d1 = dict_set [(''name'', name)] ''test_case'' v)"
    and rest: "(case (if ids \<noteq> PNone
                 then (case py_iter ids of
                         Inl e \<Rightarrow> Inl e
                       | Inr xs \<Rightarrow>
                           (case int_list xs of
                              Inl e \<Rightarrow> Inl e
                            | Inr ns \<Rightarrow> Inr (dict_set d1 ''test_case_ids'' (PList ns))))
                 else Inr d1) of
             Inl e \<Rightarrow> Inl e
           | Inr d2 \<Rightarrow>
               Inr (if py_truthy descr then dict_set d2 ''description'' descr else d2)) = Inr d3"
    by (simp add: test_run_base_def Let_def split: sum.splits if_splits) blast+
  from d1 have k1: "fst ` set d1 \<subseteq> {''name'', ''test_case''}"
    by auto
  from rest obtain d2 where
    d2: "d2 = d1 \<or> (\<exists>v. d2 = dict_set d1 ''test_case_ids'' v)"
    and d3: "d3 = d2 \<or> d3 = dict_set d2 ''description'' descr"
    by (simp split: sum.splits if_splits) blast+
  from d2 have k2: "fst ` set d2 \<subseteq> {''name'', ''test_case'', ''test_case_ids''}"
  proof
    assume "d2 = d1"
    with k1 show ?thesis by auto
  next
    assume "\<exists>v. d2 = dict_set d1 ''test_case_ids'' v"
    then obtain v where "d2 = dict_set d1 ''test_case_ids'' v" ..
    with k1 show ?thesis
      by (simp only:) (rule subset_keys_dict_set, auto)
  qed
  from d3 show ?thesis
  proof
    assume "d3 = d2"
    with k2 show ?thesis by auto
  next
    assume "d3 = dict_set d2 ''description'' descr"
    with k2 show ?thesis
      by (simp only:) (rule subset_keys_dict_set, auto)
  qed
qed

lemma base_no_properties:
  assumes "fst ` set d \<subseteq> {''name'', ''test_case'', ''test_case_ids'', ''description''}"
  shows "props_ok d" and "run_properties d = []"
proof -
  from assms have "''properties'' \<notin> fst ` set d" by auto
  then have "map_of d ''properties'' = None"
    by (simp add: map_of_eq_None_iff)
  then show "props_ok d" and "run_properties d = []"
    by (simp_all add: props_ok_def run_properties_def dict_get_def)
qed

lemma attach_properties_list:
  assumes "fst ` set d3 \<subseteq> {''name'', ''test_case'', ''test_case_ids'', ''description''}"
  shows "run_properties (attach_properties d3 psd ped bv) =
           (if py_truthy psd
            then [PDict [(''field_id'', PStr ''PlannedStartDate''), (''field_value'', psd)]] else [])
           @ (if py_truthy ped
              then [PDict [(''field_id'', PStr ''PlannedEndDate''), (''field_value'', ped)]] else [])
           @ (if bv = PNone then [PDict build_version_property] else [])"
  using base_no_properties [OF assms]
  by (simp add: attach_properties_def Let_def run_properties_append props_ok_append)

lemma attach_properties_keys:
  assumes "fst ` set d3 \<subseteq> {''name'', ''test_case'', ''test_case_ids'', ''description''}"
  shows "fst ` set (attach_properties d3 psd ped bv)
           \<subseteq> {''name'', ''test_case'', ''test_case_ids'', ''description'', ''properties''}"
  using assms
  by (auto simp: attach_properties_def Let_def append_property_keys)

lemma test_run_data_properties:
  assumes "test_run_data name ids cid ver descr psd ped bv = Inr d"
  shows "run_properties d =
           (if py_truthy psd
            then [PDict [(''field_id'', PStr ''PlannedStartDate''), (''field_value'', psd)]] else [])
           @ (if py_truthy ped
              then [PDict [(''field_id'', PStr ''PlannedEndDate''), (''field_value'', ped)]] else [])
           @ (if bv = PNone then [PDict build_version_property] else [])"
    and "fst ` set d \<subseteq> {''name'', ''test_case'', ''test_case_ids'', ''description'', ''properties''}"
proof -
  from assms obtain d3 where
    base: "test_run_base name ids cid ver descr = Inr d3"
    and d: "d = attach_properties d3 psd ped bv"
    by (auto simp: test_run_data_def split: sum.splits)
  note k3 = test_run_base_keys [OF base]
  show "run_properties d =
           (if py_truthy psd
            then [PDict [(''field_id'', PStr ''PlannedStartDate''), (''field_value'', psd)]] else [])
           @ (if py_truthy ped
              then [PDict [(''field_id'', PStr ''PlannedEndDate''), (''field_value'', ped)]] else [])
           @ (if bv = PNone then [PDict build_version_property] else [])"
    unfolding d by (rule attach_properties_list [OF k3])
  show "fst ` set d \<subseteq> {''name'', ''test_case'', ''test_case_ids'', ''description'', ''properties''}"
    unfolding d by (rule attach_properties_keys [OF k3])
qed

lemma attach_properties_build_version:
  "bv \<noteq> PNone \<Longrightarrow>
     attach_properties d3 psd ped PNone
       = append_property (attach_properties d3 psd ped bv) build_version_property"
  by (simp add: attach_properties_def Let_def)

lemma attach_properties_supplied:
  "bv \<noteq> PNone \<Longrightarrow> bv' \<noteq> PNone \<Longrightarrow>
     attach_properties d3 psd ped bv' = attach_properties d3 psd ped bv"
  by (simp add: attach_properties_def Let_def)

lemma find_test_cycle_id_body_sent:
  "find_test_cycle_id_body tr n s = (res, s1) \<Longrightarrow>
     sent s1 = sent s @ [cycles_request] \<and> execution_statuses s1 = execution_statuses s"
  by (auto simp: find_test_cycle_id_body_def split: prod.splits sum.splits
      dest!: make_request_facts)

lemma find_test_cycle_id_sent:
  "find_test_cycle_id_by_name tr n s = (res, s1) \<Longrightarrow>
     sent s1 = sent s @ [cycles_request] \<and> execution_statuses s1 = execution_statuses s"
  by (auto simp: find_test_cycle_id_by_name_def split: prod.splits sum.splits
      dest!: find_test_cycle_id_body_sent)

lemma create_test_cycle_sent:
  "create_test_cycle tr n d p s = (res, s1) \<Longrightarrow>
     \<exists>data. sent s1 = sent s @ [create_cycle_request data]"
  by (auto simp: create_test_cycle_def Let_def split: prod.splits sum.splits
      dest!: make_request_facts)

lemma get_or_create_sent:
  assumes "get_or_create_test_cycle_id_by_name tr n d s = (res, s1)"
  shows "\<exists>pre. sent s1 = sent s @ pre \<and> (\<forall>r \<in> set pre. req_endpoint r = Test_cycles)"
proof -
  obtain v s0 where f: "find_test_cycle_id_by_name tr n s = (v, s0)"
    by (cases "find_test_cycle_id_by_name tr n s")
  from find_test_cycle_id_sent [OF f] have s0: "sent s0 = sent s @ [cycles_request]"
    by simp
  show ?thesis
  proof (cases "s1 = s0")
    case True
    with s0 show ?thesis by (auto simp: cycles_request_def)
  next
    case False
    with assms f obtain r where c: "create_test_cycle tr n d PNone s0 = (r, s1)"
      by (auto simp: get_or_create_test_cycle_id_by_name_def split: sum.splits if_splits prod.splits)
    from create_test_cycle_sent [OF c] s0 show ?thesis
      by (auto simp: cycles_request_def create_cycle_request_def)
  qed
qed

lemma create_test_run_sent:
  assumes "create_test_run tr name ids cid ver descr psd ped bv cyc cycname s = (res, s2)"
  shows "\<exists>pre. (\<forall>r \<in> set pre. req_endpoint r = Test_cycles)
           \<and> ((\<exists>e. res = Inl e) \<and> sent s2 = sent s @ pre
                \<or> (\<exists>d pid pty. test_run_data name ids cid ver descr psd ped bv = Inr d
                      \<and> sent s2 = sent s @ pre @ [create_run_request d pid pty]))"
proof -
  let ?parent = "(if py_truthy cyc then (Inr (cyc, PStr ''test-cycle''), s)
            else if py_truthy cycname
            then (case get_or_create_test_cycle_id_by_name tr cycname PNone s of
                    (Inl e, s1) \<Rightarrow> (Inl e, s1)
                  | (Inr cycle_id, s1) \<Rightarrow> (Inr (cycle_id, PStr ''test-cycle''), s1))
            else (Inr (PNone, PNone), s))"
  obtain p s1 where par: "?parent = (p, s1)"
    by (cases ?parent)
  have pre: "\<exists>pre. sent s1 = sent s @ pre \<and> (\<forall>r \<in> set pre. req_endpoint r = Test_cycles)"
  proof (cases "\<not> py_truthy cyc \<and> py_truthy cycname")
    case True
    obtain r s' where g: "get_or_create_test_cycle_id_by_name tr cycname PNone s = (r, s')"
      by (cases "get_or_create_test_cycle_id_by_name tr cycname PNone s")
    with par True have "s1 = s'"
      by (auto split: sum.splits)
    with get_or_create_sent [OF g] show ?thesis by simp
  next
    case False
    with par have "s1 = s" by (auto split: if_splits)
    then show ?thesis by simp
  qed
  then obtain pre where pre: "sent s1 = sent s @ pre" "\<forall>r \<in> set pre. req_endpoint r = Test_cycles"
    by blast
  show ?thesis
  proof (cases p)
    case (Inl e)
    with assms par have "res = Inl e" "s2 = s1"
      by (simp_all add: create_test_run_def)
    with pre show ?thesis by blast
  next
    case (Inr pp)
    obtain pid pty where pp: "pp = (pid, pty)" by (cases pp)
    show ?thesis
    proof (cases "test_run_data name ids cid ver descr psd ped bv")
      case (Inl e)
      with assms par Inr pp have "res = Inl e" "s2 = s1"
        by (simp_all add: create_test_run_def)
      with pre show ?thesis by blast
    next
      case d: (Inr d)
      obtain r s' where m: "make_request tr (create_run_request d pid pty) s1 = (r, s')"
        by (cases "make_request tr (create_run_request d pid pty) s1")
      with assms par Inr pp d have "s2 = s'"
        by (auto simp: create_test_run_def split: sum.splits)
      with make_request_facts [OF m] pre d show ?thesis
        by auto
    qed
  qed
qed



text \<open>
  C10. Let a call of \<open>create_test_run\<close> pass a build version, whatever its value. Any
  other value that is passed gives the same outcome, the same requests and the same
  state: the value is used nowhere. In every request for a new test run that the call
  sends, no entry of \<^verbatim>\<open>properties\<close> has the \<^verbatim>\<open>field_id\<close> 12625659 or the
  \<^verbatim>\<open>field_name\<close> \<^verbatim>\<open>Build Version\<close>, and the payload differs from the one built when
  the argument is left out only by that one entry, which the latter has at the end of
  \<^verbatim>\<open>properties\<close>.
\<close>

theorem supplied_build_version_is_discarded:
  assumes "bv \<noteq> PNone"
    and "create_test_run tr name ids cid ver descr psd ped bv cyc cycname s = (res, s2)"
  shows "(\<forall>bv'. bv' \<noteq> PNone \<longrightarrow>
            create_test_run tr name ids cid ver descr psd ped bv' cyc cycname s = (res, s2))
       \<and> (\<exists>pre. sent s2 = sent s @ pre
             \<and> (\<forall>r \<in> set pre. req_endpoint r = Test_runs \<longrightarrow>
                   (\<exists>d. req_data r = PDict d
                      \<and> (\<forall>p. PDict p \<in> set (run_properties d) \<longrightarrow>
                             map_of p ''field_id'' \<noteq> Some (PInt 12625659)
                             \<and> map_of p ''field_name'' \<noteq> Some (PStr ''Build Version''))
                      \<and> test_run_data name ids cid ver descr psd ped PNone
                           = Inr (append_property d build_version_property))))"
proof (intro conjI allI impI)
  fix bv'
  assume "bv' \<noteq> PNone"
  with assms(1) have eq: "test_run_data name ids cid ver descr psd ped bv'
                        = test_run_data name ids cid ver descr psd ped bv"
    by (simp add: test_run_data_def attach_properties_supplied [of bv bv'] split: sum.splits)
  have "create_test_run tr name ids cid ver descr psd ped bv' cyc cycname s
          = create_test_run tr name ids cid ver descr psd ped bv cyc cycname s"
    by (simp only: create_test_run_def eq)
  with assms(2) show "create_test_run tr name ids cid ver descr psd ped bv' cyc cycname s = (res, s2)"
    by simp
next
  from create_test_run_sent [OF assms(2)] obtain pre where
    cyc: "\<forall>r \<in> set pre. req_endpoint r = Test_cycles"
    and alt: "(\<exists>e. res = Inl e) \<and> sent s2 = sent s @ pre
                \<or> (\<exists>d pid pty. test_run_data name ids cid ver descr psd ped bv = Inr d
                      \<and> sent s2 = sent s @ pre @ [create_run_request d pid pty])"
    by blast
  from alt show "\<exists>pre. sent s2 = sent s @ pre
             \<and> (\<forall>r \<in> set pre. req_endpoint r = Test_runs \<longrightarrow>
                   (\<exists>d. req_data r = PDict d
                      \<and> (\<forall>p. PDict p \<in> set (run_properties d) \<longrightarrow>
                             map_of p ''field_id'' \<noteq> Some (PInt 12625659)
                             \<and> map_of p ''field_name'' \<noteq> Some (PStr ''Build Version''))
                      \<and> test_run_data name ids cid ver descr psd ped PNone
                           = Inr (append_property d build_version_property)))"
  proof
    assume "(\<exists>e. res = Inl e) \<and> sent s2 = sent s @ pre"
    with cyc show ?thesis
      by (intro exI [of _ pre]) auto
  next
    assume "\<exists>d pid pty. test_run_data name ids cid ver descr psd ped bv = Inr d
                      \<and> sent s2 = sent s @ pre @ [create_run_request d pid pty]"
    then obtain d pid pty where
      d: "test_run_data name ids cid ver descr psd ped bv = Inr d"
      and snt: "sent s2 = sent s @ pre @ [create_run_request d pid pty]"
      by blast
    from test_run_data_properties(1) [OF d] assms(1) have
      props: "set (run_properties d) \<subseteq>
                {PDict [(''field_id'', PStr ''PlannedStartDate''), (''field_value'', psd)],
                 PDict [(''field_id'', PStr ''PlannedEndDate''), (''field_value'', ped)]}"
      by auto
    have none: "\<forall>p. PDict p \<in> set (run_properties d) \<longrightarrow>
                  map_of p ''field_id'' \<noteq> Some (PInt 12625659)
                  \<and> map_of p ''field_name'' \<noteq> Some (PStr ''Build Version'')"
      using props by auto
    from d obtain d3 where
      base: "test_run_base name ids cid ver descr = Inr d3"
      and dd: "d = attach_properties d3 psd ped bv"
      by (auto simp: test_run_data_def split: sum.splits)
    have absent: "test_run_data name ids cid ver descr psd ped PNone
                    = Inr (append_property d build_version_property)"
      using base dd attach_properties_build_version [OF assms(1), of d3 psd ped]
      by (simp add: test_run_data_def)
    have payload: "req_data (create_run_request d pid pty) = PDict d"
      by (simp add: create_run_request_def)
    show ?thesis
    proof (intro exI [of _ "pre @ [create_run_request d pid pty]"] conjI ballI impI)
      show "sent s2 = sent s @ pre @ [create_run_request d pid pty]" by (rule snt)
    next
      fix r
      assume "r \<in> set (pre @ [create_run_request d pid pty])" and "req_endpoint r = Test_runs"
      with cyc have r: "r = create_run_request d pid pty" by auto
      from none absent show "\<exists>d. req_data r = PDict d
                      \<and> (\<forall>p. PDict p \<in> set (run_properties d) \<longrightarrow>
                             map_of p ''field_id'' \<noteq> Some (PInt 12625659)
                             \<and> map_of p ''field_name'' \<noteq> Some (PStr ''Build Version''))
                      \<and> test_run_data name ids cid ver descr psd ped PNone
                           = Inr (append_property d build_version_property)"
        unfolding r payload by (intro exI [of _ d]) simp
    qed
  qed
qed

theorem supplied_build_version_is_discarded_witness:
  "\<exists>res s2.
      create_test_run example_transport (PStr ''Run 1'') PNone (PInt 10) PNone PNone
          PNone PNone (PStr ''1.2.3'') PNone PNone (fresh_manager []) = (res, s2)
      \<and> create_test_run example_transport (PStr ''Run 1'') PNone (PInt 10) PNone PNone
          PNone PNone (PStr ''9.9'') PNone PNone (fresh_manager []) = (res, s2)"
proof -
  obtain res s2 where
    call: "create_test_run example_transport (PStr ''Run 1'') PNone (PInt 10) PNone PNone
             PNone PNone (PStr ''1.2.3'') PNone PNone (fresh_manager []) = (res, s2)"
    by (rule prod.exhaust)
  have given: "PStr ''1.2.3'' \<noteq> PNone" and other: "PStr ''9.9'' \<noteq> PNone"
    by simp_all
  have "create_test_run example_transport (PStr ''Run 1'') PNone (PInt 10) PNone PNone
          PNone PNone (PStr ''9.9'') PNone PNone (fresh_manager []) = (res, s2)"
    by (rule supplied_build_version_is_discarded
          [OF given call, THEN conjunct1, rule_format, OF other])
  with call show ?thesis
    by (intro exI conjI)
qed

section \<open>Appending a step log\<close>

lemma step_logs_dict_set:
  "step_logs (PDict (dict_set d ''logs'' (PList ls))) = ls"
  by (simp add: step_logs_def dict_get_dict_set)

text \<open>
  C7, as amended. With a step that was built, \<open>append_qtest_test_step_log\<close> returns the
  one-element list for the container \<^verbatim>\<open>None\<close> or \<^verbatim>\<open>''\<close>; the list with the step
  added at its end for a list; and for a dictionary the dictionary itself, with every
  other key as it was and with \<^verbatim>\<open>logs\<close> holding the former list followed by the step
  when \<^verbatim>\<open>logs\<close> was a list, or holding just the step when \<^verbatim>\<open>logs\<close> was missing or
  \<^verbatim>\<open>None\<close>. A dictionary whose \<^verbatim>\<open>logs\<close> is anything else, and a container that is
  neither \<^verbatim>\<open>None\<close>, \<^verbatim>\<open>''\<close>, a list nor a dictionary, is refused with
  \<^verbatim>\<open>ValueError\<close>. Whenever a container is returned, its step logs are those of the
  container passed in, unchanged and in order, followed by the new step. A step that
  could not be built is the error of the call.
\<close>

theorem append_step_log_preserves_entries:
  "append_qtest_test_step_log (Inl e) container = Inl e
   \<and> (container = PNone \<or> container = PStr [] \<longrightarrow>
        append_qtest_test_step_log (Inr step) container = Inr (PList [step]))
   \<and> (\<forall>xs. container = PList xs \<longrightarrow>
        append_qtest_test_step_log (Inr step) container = Inr (PList (xs @ [step])))
   \<and> (\<forall>d logs. container = PDict d \<and> dict_get d ''logs'' PNone = PList logs \<longrightarrow>
        append_qtest_test_step_log (Inr step) container
          = Inr (PDict (dict_set d ''logs'' (PList (logs @ [step])))))
   \<and> (\<forall>d. container = PDict d \<and> dict_get d ''logs'' PNone = PNone \<longrightarrow>
        append_qtest_test_step_log (Inr step) container
          = Inr (PDict (dict_set d ''logs'' (PList [step]))))
   \<and> (\<forall>d. container = PDict d
           \<and> dict_get d ''logs'' PNone \<noteq> PNone \<and> (\<forall>logs. dict_get d ''logs'' PNone \<noteq> PList logs) \<longrightarrow>
        (\<exists>msg. append_qtest_test_step_log (Inr step) container = Inl (ValueError msg)))
   \<and> (container \<noteq> PNone \<and> container \<noteq> PStr [] \<and> (\<forall>xs. container \<noteq> PList xs)
           \<and> (\<forall>d. container \<noteq> PDict d) \<longrightarrow>
        (\<exists>msg. append_qtest_test_step_log (Inr step) container = Inl (ValueError msg)))
   \<and> (\<forall>c'. append_qtest_test_step_log (Inr step) container = Inr c' \<longrightarrow>
          step_logs c' = step_logs container @ [step]
          \<and> (\<forall>d. container = PDict d \<longrightarrow>
                (\<exists>d'. c' = PDict d' \<and> (\<forall>k. k \<noteq> ''logs'' \<longrightarrow> map_of d' k = map_of d k))))"
proof (intro conjI allI impI)
  show "append_qtest_test_step_log (Inl e) container = Inl e"
    by (simp add: append_qtest_test_step_log_def)
next
  assume "container = PNone \<or> container = PStr []"
  then show "append_qtest_test_step_log (Inr step) container = Inr (PList [step])"
    by (auto simp: append_qtest_test_step_log_def)
next
  fix xs assume "container = PList xs"
  then show "append_qtest_test_step_log (Inr step) container = Inr (PList (xs @ [step]))"
    by (simp add: append_qtest_test_step_log_def)
next
  fix d logs assume "container = PDict d \<and> dict_get d ''logs'' PNone = PList logs"
  then show "append_qtest_test_step_log (Inr step) container
               = Inr (PDict (dict_set d ''logs'' (PList (logs @ [step]))))"
    by (simp add: append_qtest_test_step_log_def)
next
  fix d assume "container = PDict d \<and> dict_get d ''logs'' PNone = PNone"
  then show "append_qtest_test_step_log (Inr step) container
               = Inr (PDict (dict_set d ''logs'' (PList [step])))"
    by (simp add: append_qtest_test_step_log_def)
next
  fix d
  assume "container = PDict d
           \<and> dict_get d ''logs'' PNone \<noteq> PNone \<and> (\<forall>logs. dict_get d ''logs'' PNone \<noteq> PList logs)"
  then show "\<exists>msg. append_qtest_test_step_log (Inr step) container = Inl (ValueError msg)"
    by (cases "dict_get d ''logs'' PNone") (simp_all add: append_qtest_test_step_log_def)
next
  assume "container \<noteq> PNone \<and> container \<noteq> PStr [] \<and> (\<forall>xs. container \<noteq> PList xs)
           \<and> (\<forall>d. container \<noteq> PDict d)"
  then show "\<exists>msg. append_qtest_test_step_log (Inr step) container = Inl (ValueError msg)"
    by (cases container) (simp_all add: append_qtest_test_step_log_def)
next
  fix c' assume ok: "append_qtest_test_step_log (Inr step) container = Inr c'"
  show "step_logs c' = step_logs container @ [step]"
  proof (cases container)
    case (PDict d)
    with ok show ?thesis
      by (cases "dict_get d ''logs'' PNone")
         (auto simp: append_qtest_test_step_log_def step_logs_def dict_get_dict_set)
  qed (use ok in \<open>auto simp: append_qtest_test_step_log_def step_logs_def split: if_splits\<close>)
next
  fix c' d assume ok: "append_qtest_test_step_log (Inr step) container = Inr c'"
    and c: "container = PDict d"
  from ok c obtain v where "c' = PDict (dict_set d ''logs'' v)"
    by (cases "dict_get d ''logs'' PNone") (auto simp: append_qtest_test_step_log_def)
  then show "\<exists>d'. c' = PDict d' \<and> (\<forall>k. k \<noteq> ''logs'' \<longrightarrow> map_of d' k = map_of d k)"
    by (simp add: map_of_dict_set)
qed

theorem append_step_log_preserves_entries_witness:
  "append_qtest_test_step_log (Inr (PDict [(''actual_result'', PStr ''two'')]))
       (PDict [(''logs'', PList [PDict [(''actual_result'', PStr ''one'')]])])
     = Inr (PDict [(''logs'', PList [PDict [(''actual_result'', PStr ''one'')],
                                     PDict [(''actual_result'', PStr ''two'')]])])
   \<and> step_logs (PDict [(''logs'', PList [PDict [(''actual_result'', PStr ''one'')],
                                        PDict [(''actual_result'', PStr ''two'')]])])
     = step_logs (PDict [(''logs'', PList [PDict [(''actual_result'', PStr ''one'')]])])
         @ [PDict [(''actual_result'', PStr ''two'')]]"
proof -
  have call: "append_qtest_test_step_log (Inr (PDict [(''actual_result'', PStr ''two'')]))
       (PDict [(''logs'', PList [PDict [(''actual_result'', PStr ''one'')]])])
     = Inr (PDict [(''logs'', PList [PDict [(''actual_result'', PStr ''one'')],
                                     PDict [(''actual_result'', PStr ''two'')]])])"
    by (simp add: append_qtest_test_step_log_def dict_get_def)
  have "step_logs (PDict [(''logs'', PList [PDict [(''actual_result'', PStr ''one'')],
                                        PDict [(''actual_result'', PStr ''two'')]])])
     = step_logs (PDict [(''logs'', PList [PDict [(''actual_result'', PStr ''one'')]])])
         @ [PDict [(''actual_result'', PStr ''two'')]]"
    by (rule append_step_log_preserves_entries
          [THEN conjunct2, THEN conjunct2, THEN conjunct2, THEN conjunct2, THEN conjunct2,
           THEN conjunct2, THEN conjunct2, rule_format, OF call, THEN conjunct1])
  with call show ?thesis
    by (rule conjI)
qed

text \<open>
  C7 as stated fails on a dictionary that holds no \<^verbatim>\<open>logs\<close> list: the container below
  is not absent or empty, not a list and has no \<^verbatim>\<open>logs\<close>, yet it is not refused. The
  code creates the list (\<^verbatim>\<open>logs = []; container['logs'] = logs\<close>).
\<close>

theorem append_step_log_accepts_dict_without_logs:
  "append_qtest_test_step_log (Inr (PDict [(''actual_result'', PStr ''ok'')]))
       (PDict [(''name'', PStr ''run'')])
     = Inr (PDict [(''name'', PStr ''run''),
                   (''logs'', PList [PDict [(''actual_result'', PStr ''ok'')]])])"
  by (simp add: append_qtest_test_step_log_def dict_get_def)

section \<open>Resolving a step by its order\<close>







section \<open>Errors of the transport\<close>


















section \<open>Get or create a test cycle\<close>








end
